theory Spec2Isabelle
  imports Complex_Main
begin

section \<open>The Streamlit detection application\<close>

text \<open>
  A shallow embedding of \<^verbatim>\<open>streamlit_detection_OP.py\<close>: the model downloader
  \<^verbatim>\<open>download_from_gdrive\<close>, the class \<^verbatim>\<open>Inference\<close> with its methods, and
  the script entry point.

  Everything the script touches outside itself is either recorded in a world (the files
  on disk and the ordered trace of calls made to the operating system, to Streamlit, to
  OpenCV and to the model) or taken from an environment of external capabilities (the
  shell, the model loader, the model's predict and track calls, the image decoder, the
  video capture). Calls into these libraries are taken to return; the exceptions the
  script itself can meet (a missing attribute, a missing key, removing a missing file,
  the loader's own failure, Streamlit's stop) are values.
\<close>

subsection \<open>Data\<close>

type_synonym path = string
type_synonym bytes = string

datatype source_kind = Webcam | Video | Image

datatype yes_no = Yes | No

text \<open>\<^verbatim>\<open>vid_file_name\<close> is None, a file name or the integer device index.\<close>

datatype vid_name = No_name | Name string | Device nat

text \<open>
  What one read of a capture meets. \<^verbatim>\<open>cap.read()\<close> hands the script a success flag
  and a frame, so the script sees the last two outcomes as the same pair (False, None).
\<close>

datatype 'f read_outcome = Frame 'f | EndOfStream | ReadError

datatype exn =
    AttributeError string
  | KeyError string
  | FileNotFoundError string
  | TypeError string
  | LoadError string
  | StopException

text \<open>The messages \<^verbatim>\<open>download_from_gdrive\<close> prints, by their content.\<close>

datatype message =
    Downloading string
  | Downloaded string nat
  | Download_failed string
  | Download_error exn
  | Already_exists string

datatype 'f event =
    Print message
  | Makedirs path
  | System string
  | Remove path
  | Logger_info "string option"
  | Ui string
  | Write_file path
  | Load_model path
  | St_success string
  | St_error string
  | St_warning string
  | Button string
  | Imdecode
  | Predict 'f real real "nat list"
  | Track 'f real real "nat list" bool
  | Org_image 'f
  | Ann_image 'f
  | Cap_open vid_name
  | Cap_read
  | Cap_release
  | St_stop
  | Destroy_all_windows

record 'f world =
  files :: "path \<rightharpoonup> bytes"
  trace :: "'f event list"

text \<open>A call either returns a value or raises, and the world as it stands is kept.\<close>

type_synonym ('f, 'a) result = "(exn \<times> 'f world) + 'a"

record ('m, 'f, 'r) env =
  system :: "string \<Rightarrow> (path \<rightharpoonup> bytes) \<Rightarrow> (path \<rightharpoonup> bytes)"
  YOLO :: "(path \<rightharpoonup> bytes) \<Rightarrow> path \<Rightarrow> exn + 'm"
  predict :: "'m \<Rightarrow> 'f \<Rightarrow> real \<Rightarrow> real \<Rightarrow> nat list \<Rightarrow> 'r \<times> 'm"
  track :: "'m \<Rightarrow> 'f \<Rightarrow> real \<Rightarrow> real \<Rightarrow> nat list \<Rightarrow> bool \<Rightarrow> 'r \<times> 'm"
  plot :: "'r \<Rightarrow> 'f"
  imdecode :: "bytes \<Rightarrow> 'f"
  VideoCapture :: "(path \<rightharpoonup> bytes) \<Rightarrow> vid_name \<Rightarrow> (nat \<Rightarrow> 'f read_outcome) option"

definition log :: "'f event \<Rightarrow> 'f world \<Rightarrow> 'f world" where
  "log e w = w\<lparr>trace := trace w @ [e]\<rparr>"

subsection \<open>The model table and the downloader\<close>

definition GDRIVE_MODELS :: "(string \<times> string) list" where
  "GDRIVE_MODELS =
    [(''YOLO11m_baseline'', ''1RYJiKwAV2Ueg05_W9U20Y_h0D5SYDFpC''),
     (''YOLO11m_CA'', ''1-vh_zLz9OMVCO_6CueKx_MSVVJrCrNhF''),
     (''YOLO11m_ECA'', ''1ZdrB2IcubfM6uJsio4dEOBEcKzlae6-S''),
     (''YOLO11m_CBAM'', ''1jKIStEJRGLGhvEPtAx3tRf8O4VLLwwdB'')]"

definition model_file :: "string \<Rightarrow> path" where
  "model_file model_name = ''models/'' @ model_name @ ''.pt''"

definition gdrive_url :: "string \<Rightarrow> string" where
  "gdrive_url file_id = ''https://drive.google.com/uc?export=download&id='' @ file_id"

definition wget_command :: "path \<Rightarrow> string \<Rightarrow> string" where
  "wget_command model_path url =
     ''wget --no-check-certificate -O '' @ model_path @ '' '' @ [CHR 0x27] @ url @ [CHR 0x27]"

text \<open>\<^verbatim>\<open>os.system(command)\<close>: the shell does to the files what the environment says.\<close>

definition os_system :: "('m, 'f, 'r) env \<Rightarrow> string \<Rightarrow> 'f world \<Rightarrow> 'f world" where
  "os_system E command w = log (System command) (w\<lparr>files := system E command (files w)\<rparr>)"

text \<open>\<^verbatim>\<open>os.remove(path)\<close> raises when there is no such file.\<close>

definition os_remove :: "path \<Rightarrow> 'f world \<Rightarrow> ('f, 'f world) result" where
  "os_remove p w =
     (case files w p of
        None \<Rightarrow> Inl (FileNotFoundError p, w)
      | Some b \<Rightarrow> Inr (log (Remove p) (w\<lparr>files := (files w)(p := None)\<rparr>)))"

text \<open>The body of the \<^verbatim>\<open>try\<close> block of \<^verbatim>\<open>download_from_gdrive\<close>.\<close>

definition download_attempt ::
  "('m, 'f, 'r) env \<Rightarrow> string \<Rightarrow> string \<Rightarrow> 'f world \<Rightarrow> ('f, 'f world) result" where
  "download_attempt E command model_name w =
     (let model_path = model_file model_name;
          w1 = os_system E command w
      in case files w1 model_path of
           Some b \<Rightarrow>
             if length b > 10000 then Inr (log (Print (Downloaded model_name (length b))) w1)
             else os_remove model_path (log (Print (Download_failed model_name)) w1)
         | None \<Rightarrow> os_remove model_path (log (Print (Download_failed model_name)) w1))"

definition download_from_gdrive ::
  "('m, 'f, 'r) env \<Rightarrow> string \<Rightarrow> string \<Rightarrow> 'f world \<Rightarrow> ('f, 'f world) result" where
  "download_from_gdrive E file_id model_name w =
     (let model_path = model_file model_name in
      if files w model_path = None then
        (let w1 = log (Makedirs ''models'') w;
             w2 = log (Print (Downloading model_name)) w1;
             url = gdrive_url file_id;
             command = wget_command model_path url
         in case download_attempt E command model_name w2 of
              Inl (e, w3) \<Rightarrow> Inr (log (Print (Download_error e)) w3)
            | Inr w3 \<Rightarrow> Inr w3)
      else Inr (log (Print (Already_exists model_name)) w))"

text \<open>The shell commands a trace holds: each is one remote fetch.\<close>

fun fetches :: "'f event list \<Rightarrow> string list" where
  "fetches [] = []"
| "fetches (System c # es) = c # fetches es"
| "fetches (e # es) = fetches es"


subsection \<open>The user interface of one script run\<close>

text \<open>
  Streamlit reruns the script from the top on every interaction; within one run each
  widget call returns the value the user left it at. One run therefore reads one record
  of widget values. A select box and a radio return the option the user picked, the
  first option when untouched; a button returns whether it was pressed. Which records
  Streamlit can produce, and what it does to a script that is still running when the
  user acts, is Streamlit's own and is not modelled: the script is followed on the values
  its widget calls return.
\<close>

record ui =
  ui_source :: source_kind
  ui_tracking :: yes_no
  ui_conf :: real
  ui_iou :: real
  ui_video :: "bytes option"
  ui_image :: "bytes option"
  ui_model :: nat
  ui_start :: bool
  ui_stop :: bool

definition selectbox :: "'a list \<Rightarrow> nat \<Rightarrow> 'a option" where
  "selectbox options index = (if index < length options then Some (options ! index) else None)"

subsection \<open>The class Inference\<close>

text \<open>
  The attributes of an \<^verbatim>\<open>Inference\<close> object. An attribute the constructor sets to
  None or to a placeholder is an option; \<^verbatim>\<open>image_data\<close> is not set by the
  constructor at all, and None stands for the attribute being absent.
\<close>

record 'm Inference =
  source :: "source_kind option"
  enable_trk :: "yes_no option"
  conf :: real
  iou :: real
  vid_file_name :: vid_name
  selected_ind :: "nat list"
  model :: "'m option"
  temp_dict_model :: "string option"
  model_path :: "string option"
  image_data :: "bytes option"

definition Inference_init :: "string option \<Rightarrow> 'f world \<Rightarrow> 'm Inference \<times> 'f world" where
  "Inference_init model_arg w =
     (\<lparr>source = None, enable_trk = None, conf = 0.25, iou = 0.45, vid_file_name = No_name,
       selected_ind = [], model = None, temp_dict_model = model_arg,
       model_path = (if model_arg \<noteq> None then model_arg else None),
       image_data = None\<rparr>,
      log (Logger_info model_arg) w)"

definition web_ui :: "'f world \<Rightarrow> 'f world" where
  "web_ui w =
     log (Ui ''markdown'') (log (Ui ''markdown'') (log (Ui ''markdown'')
       (log (Ui ''set_page_config'') w)))"

definition sidebar :: "ui \<Rightarrow> 'm Inference \<Rightarrow> 'f world \<Rightarrow> 'm Inference \<times> 'f world" where
  "sidebar U self w =
     (let w1 = log (Ui ''title'') (log (Ui ''image'') w) in
      (self\<lparr>source := Some (ui_source U), enable_trk := Some (ui_tracking U),
            conf := ui_conf U, iou := ui_iou U\<rparr>,
       log (Ui ''columns'') w1))"

definition source_upload :: "ui \<Rightarrow> 'm Inference \<Rightarrow> 'f world \<Rightarrow> 'm Inference \<times> 'f world" where
  "source_upload U self w =
     (let self1 = self\<lparr>vid_file_name := Name []\<rparr> in
      if source self1 = Some Video then
        (case ui_video U of
           Some g \<Rightarrow>
             (self1\<lparr>vid_file_name := Name ''uploaded_video.mp4''\<rparr>,
              log (Write_file ''uploaded_video.mp4'')
                (w\<lparr>files := (files w)(''uploaded_video.mp4'' \<mapsto> g)\<rparr>))
         | None \<Rightarrow> (self1, w))
      else if source self1 = Some Webcam then (self1\<lparr>vid_file_name := Device 0\<rparr>, w)
      else if source self1 = Some Image then
        (case ui_image U of
           Some img_file \<Rightarrow> (self1\<lparr>image_data := Some img_file\<rparr>, w)
         | None \<Rightarrow> (self1, w))
      else (self1, w))"

text \<open>
  \<^verbatim>\<open>configure\<close>: the selector offers the keys of the table, in order. The list of
  class names the source reads off the loaded model is not used afterwards and is left out.
\<close>

definition configure ::
  "('m, 'f, 'r) env \<Rightarrow> ui \<Rightarrow> 'm Inference \<Rightarrow> 'f world \<Rightarrow> ('f, 'm Inference \<times> 'f world) result" where
  "configure E U self w =
     (let available_models = map fst GDRIVE_MODELS in
      case selectbox available_models (ui_model U) of
        None \<Rightarrow> Inl (KeyError ''None'', w)
      | Some selected_model \<Rightarrow>
          (case map_of GDRIVE_MODELS selected_model of
             None \<Rightarrow> Inl (KeyError selected_model, w)
           | Some file_id \<Rightarrow>
               (case download_from_gdrive E file_id selected_model w of
                  Inl x \<Rightarrow> Inl x
                | Inr w1 \<Rightarrow>
                    (let w2 = log (Load_model (model_file selected_model)) w1 in
                     case YOLO E (files w2) (model_file selected_model) of
                       Inl e \<Rightarrow> Inl (e, w2)
                     | Inr m \<Rightarrow>
                         Inr (self\<lparr>model := Some m\<rparr>,
                              log (St_success ''Model loaded successfully!'') w2)))))"

text \<open>
  The two ways the script calls the model. The model object carries the tracker's state,
  so a call returns the object as the call left it. The library returns one result per
  image and the script takes the first.
\<close>

definition model_predict ::
  "('m, 'f, 'r) env \<Rightarrow> 'm Inference \<Rightarrow> 'f \<Rightarrow> 'f world \<Rightarrow> ('f, 'r \<times> 'm Inference \<times> 'f world) result"
  where
  "model_predict E self frame w =
     (case model self of
        None \<Rightarrow> Inl (TypeError ''model'', w)
      | Some m \<Rightarrow>
          (let (results, m') = predict E m frame (conf self) (iou self) (selected_ind self) in
           Inr (results, self\<lparr>model := Some m'\<rparr>,
                log (Predict frame (conf self) (iou self) (selected_ind self)) w)))"

definition model_track ::
  "('m, 'f, 'r) env \<Rightarrow> 'm Inference \<Rightarrow> 'f \<Rightarrow> 'f world \<Rightarrow> ('f, 'r \<times> 'm Inference \<times> 'f world) result"
  where
  "model_track E self frame w =
     (case model self of
        None \<Rightarrow> Inl (AttributeError ''track'', w)
      | Some m \<Rightarrow>
          (let (results, m') = track E m frame (conf self) (iou self) (selected_ind self) True in
           Inr (results, self\<lparr>model := Some m'\<rparr>,
                log (Track frame (conf self) (iou self) (selected_ind self) True) w)))"

text \<open>\<^verbatim>\<open>cap.read()\<close>: the frame when the flag is true, nothing otherwise.\<close>

definition cap_read :: "'f read_outcome \<Rightarrow> 'f option" where
  "cap_read out = (case out of Frame f \<Rightarrow> Some f | EndOfStream \<Rightarrow> None | ReadError \<Rightarrow> None)"

text \<open>
  The \<^verbatim>\<open>while cap.isOpened()\<close> loop on an opened capture whose \<open>i\<close>-th read meets
  \<open>s i\<close>. The capture stays open until it is released, and inside the loop it is only
  released on the way out, so the loop ends by \<^verbatim>\<open>break\<close> or by \<^verbatim>\<open>st.stop()\<close>, which
  raises. On a camera that never fails, with no stop, it does not end.
\<close>

partial_function (option) stream_loop ::
  "('m, 'f, 'r) env \<Rightarrow> (nat \<Rightarrow> 'f read_outcome) \<Rightarrow> bool \<Rightarrow> 'm Inference \<Rightarrow> nat \<Rightarrow> 'f world
     \<Rightarrow> ('f, 'm Inference \<times> 'f world) result option" where
  "stream_loop E s stop_button self i w =
     (let w1 = log Cap_read w in
      case cap_read (s i) of
        None \<Rightarrow> Some (Inr (self, log (St_warning ''Failed to read frame.'') w1))
      | Some frame \<Rightarrow>
          (case (if enable_trk self = Some Yes then model_track E self frame w1
                 else model_predict E self frame w1) of
             Inl x \<Rightarrow> Some (Inl x)
           | Inr (results, self', w2) \<Rightarrow>
               (let annotated_frame = plot E results in
                if stop_button then Some (Inl (StopException, log St_stop (log Cap_release w2)))
                else stream_loop E s stop_button self' (Suc i)
                       (log (Ann_image annotated_frame) (log (Org_image frame) w2)))))"

declare stream_loop.simps [code]

text \<open>The branch for a video or a webcam.\<close>

definition stream_run ::
  "('m, 'f, 'r) env \<Rightarrow> ui \<Rightarrow> 'm Inference \<Rightarrow> 'f world
     \<Rightarrow> ('f, 'm Inference \<times> 'f world) result option" where
  "stream_run E U self w =
     (let stop_button = ui_stop U;
          w1 = log (Button ''Stop'') w;
          w2 = log (Cap_open (vid_file_name self)) w1
      in case VideoCapture E (files w2) (vid_file_name self) of
           None \<Rightarrow>
             Some (Inr (self, log Cap_release (log (St_error ''Could not open video/webcam.'') w2)))
         | Some s \<Rightarrow>
             (case stream_loop E s stop_button self 0 w2 of
                None \<Rightarrow> None
              | Some (Inl x) \<Rightarrow> Some (Inl x)
              | Some (Inr (self', w3)) \<Rightarrow> Some (Inr (self', log Cap_release w3))))"

text \<open>
  The branch for a still image. An uploaded file object is always true in a condition, so
  the test on \<^verbatim>\<open>self.image_data\<close> either raises, when the attribute is absent, or passes.
\<close>

definition image_run ::
  "('m, 'f, 'r) env \<Rightarrow> 'm Inference \<Rightarrow> 'f world \<Rightarrow> ('f, 'm Inference \<times> 'f world) result" where
  "image_run E self w =
     (case image_data self of
        None \<Rightarrow> Inl (AttributeError ''image_data'', w)
      | Some data \<Rightarrow>
          (let image = imdecode E data;
               w1 = log Imdecode w
           in case model_predict E self image w1 of
                Inl x \<Rightarrow> Inl x
              | Inr (results, self', w2) \<Rightarrow>
                  (let annotated_image = plot E results in
                   Inr (self', log (Ann_image annotated_image) (log (Org_image image) w2)))))"

text \<open>What the Start button runs.\<close>

definition start_run ::
  "('m, 'f, 'r) env \<Rightarrow> ui \<Rightarrow> 'm Inference \<Rightarrow> 'f world
     \<Rightarrow> ('f, 'm Inference \<times> 'f world) result option" where
  "start_run E U self w =
     (case (if source self = Some Image then Some (image_run E self w)
            else if source self = Some Video \<or> source self = Some Webcam
              then stream_run E U self w
            else Some (Inr (self, w))) of
        None \<Rightarrow> None
      | Some (Inl x) \<Rightarrow> Some (Inl x)
      | Some (Inr (self', w')) \<Rightarrow> Some (Inr (self', log Destroy_all_windows w')))"

text \<open>The first four calls of \<^verbatim>\<open>inference\<close>.\<close>

definition inference_setup ::
  "('m, 'f, 'r) env \<Rightarrow> ui \<Rightarrow> 'm Inference \<Rightarrow> 'f world \<Rightarrow> ('f, 'm Inference \<times> 'f world) result" where
  "inference_setup E U self w =
     (let w1 = web_ui w;
          (self1, w2) = sidebar U self w1;
          (self2, w3) = source_upload U self1 w2
      in configure E U self2 w3)"

definition inference ::
  "('m, 'f, 'r) env \<Rightarrow> ui \<Rightarrow> 'm Inference \<Rightarrow> 'f world
     \<Rightarrow> ('f, 'm Inference \<times> 'f world) result option" where
  "inference E U self w =
     (case inference_setup E U self w of
        Inl x \<Rightarrow> Some (Inl x)
      | Inr (self1, w1) \<Rightarrow>
          (let w2 = log (Button ''Start'') w1 in
           if ui_start U then start_run E U self1 w2 else Some (Inr (self1, w2))))"

text \<open>The script entry: the first command-line argument, when there is one, is the model.\<close>

definition main ::
  "string list \<Rightarrow> ('m, 'f, 'r) env \<Rightarrow> ui \<Rightarrow> 'f world
     \<Rightarrow> ('f, 'm Inference \<times> 'f world) result option" where
  "main argv E U w =
     (let args = length argv;
          model_arg = (if args > 1 then Some (argv ! 1) else None);
          (self, w1) = Inference_init model_arg w
      in inference E U self w1)"

subsection \<open>Reading a trace\<close>

fun org_frames :: "'f event list \<Rightarrow> 'f list" where
  "org_frames [] = []"
| "org_frames (Org_image f # es) = f # org_frames es"
| "org_frames (e # es) = org_frames es"

fun ann_frames :: "'f event list \<Rightarrow> 'f list" where
  "ann_frames [] = []"
| "ann_frames (Ann_image f # es) = f # ann_frames es"
| "ann_frames (e # es) = ann_frames es"

text \<open>
  The two panes are always updated together, the original first, so the pairs shown are
  the originals zipped with the annotated frames.
\<close>

definition emissions :: "'f event list \<Rightarrow> ('f \<times> 'f) list" where
  "emissions es = zip (org_frames es) (ann_frames es)"

fun warnings :: "'f event list \<Rightarrow> string list" where
  "warnings [] = []"
| "warnings (St_warning m # es) = m # warnings es"
| "warnings (e # es) = warnings es"

fun opens :: "'f event list \<Rightarrow> nat" where
  "opens [] = 0"
| "opens (Cap_open n # es) = Suc (opens es)"
| "opens (e # es) = opens es"

fun releases :: "'f event list \<Rightarrow> nat" where
  "releases [] = 0"
| "releases (Cap_release # es) = Suc (releases es)"
| "releases (e # es) = releases es"

fun model_calls :: "'f event list \<Rightarrow> 'f event list" where
  "model_calls [] = []"
| "model_calls (Predict f c i cs # es) = Predict f c i cs # model_calls es"
| "model_calls (Track f c i cs p # es) = Track f c i cs p # model_calls es"
| "model_calls (e # es) = model_calls es"

fun loads :: "'f event list \<Rightarrow> path list" where
  "loads [] = []"
| "loads (Load_model p # es) = p # loads es"
| "loads (e # es) = loads es"

text \<open>The events a world has gained since an earlier one.\<close>

definition since :: "'f world \<Rightarrow> 'f world \<Rightarrow> 'f event list" where
  "since w w' = drop (length (trace w)) (trace w')"

text \<open>The call the loop makes on a frame, as the trace records it.\<close>

definition loop_call :: "'m Inference \<Rightarrow> 'f \<Rightarrow> 'f event" where
  "loop_call self frame =
     (if enable_trk self = Some Yes
      then Track frame (conf self) (iou self) (selected_ind self) True
      else Predict frame (conf self) (iou self) (selected_ind self))"

text \<open>A capture whose reads meet the listed outcomes and then the end of the stream.\<close>

definition stream_of :: "'f read_outcome list \<Rightarrow> nat \<Rightarrow> 'f read_outcome" where
  "stream_of outs i = (if i < length outs then outs ! i else EndOfStream)"

text \<open>The result and the model state of the call the loop makes on a frame.\<close>

definition loop_result :: "('m, 'f, 'r) env \<Rightarrow> 'm Inference \<Rightarrow> 'm \<Rightarrow> 'f \<Rightarrow> 'r \<times> 'm" where
  "loop_result E self m frame =
     (if enable_trk self = Some Yes
      then track E m frame (conf self) (iou self) (selected_ind self) True
      else predict E m frame (conf self) (iou self) (selected_ind self))"

text \<open>
  What an iteration does once its call \<open>c\<close> on the frame has returned the result and
  the model state \<open>rm\<close>: the test of the Stop button, then the display.
\<close>

definition after_call ::
  "('m, 'f, 'r) env \<Rightarrow> (nat \<Rightarrow> 'f read_outcome) \<Rightarrow> bool \<Rightarrow> 'm Inference \<Rightarrow> nat \<Rightarrow> 'f world
     \<Rightarrow> 'f \<Rightarrow> 'f event \<Rightarrow> 'r \<times> 'm \<Rightarrow> ('f, 'm Inference \<times> 'f world) result option" where
  "after_call E s stop_button self i w frame c rm =
     (if stop_button
      then Some (Inl (StopException,
             w\<lparr>trace := trace w @ [Cap_read, c, Cap_release, St_stop]\<rparr>))
      else stream_loop E s stop_button (self\<lparr>model := Some (snd rm)\<rparr>) (Suc i)
             (w\<lparr>trace := trace w @
                [Cap_read, c, Org_image frame, Ann_image (plot E (fst rm))]\<rparr>))"

text \<open>
  The iterations of the loop over frames that are read one after the other with the Stop
  button not pressed, the model being in state \<open>m\<close> at the first: the state the
  model is left in, and the events in the order the loop makes them, for each frame the
  read, the call, the original shown and the plot of the call's result shown.
\<close>

fun model_after :: "('m, 'f, 'r) env \<Rightarrow> 'm Inference \<Rightarrow> 'm \<Rightarrow> 'f list \<Rightarrow> 'm" where
  "model_after E self m [] = m"
| "model_after E self m (f # fs) = model_after E self (snd (loop_result E self m f)) fs"

fun iterations :: "('m, 'f, 'r) env \<Rightarrow> 'm Inference \<Rightarrow> 'm \<Rightarrow> 'f list \<Rightarrow> 'f event list" where
  "iterations E self m [] = []"
| "iterations E self m (f # fs) =
     [Cap_read, loop_call self f, Org_image f, Ann_image (plot E (fst (loop_result E self m f)))]
       @ iterations E self (snd (loop_result E self m f)) fs"

text \<open>The annotated frames of the same iterations.\<close>

fun annotations :: "('m, 'f, 'r) env \<Rightarrow> 'm Inference \<Rightarrow> 'm \<Rightarrow> 'f list \<Rightarrow> 'f list" where
  "annotations E self m [] = []"
| "annotations E self m (f # fs) =
     plot E (fst (loop_result E self m f))
       # annotations E self (snd (loop_result E self m f)) fs"

fun errors :: "'f event list \<Rightarrow> string list" where
  "errors [] = []"
| "errors (St_error m # es) = m # errors es"
| "errors (e # es) = errors es"

text \<open>The world a run ends in, and what a run shows of itself: the exception, if any, and the trace.\<close>

definition world_of :: "('f, 'a \<times> 'f world) result \<Rightarrow> 'f world" where
  "world_of y = (case y of Inl (e, w) \<Rightarrow> w | Inr (a, w) \<Rightarrow> w)"

definition outcome :: "('f, 'a \<times> 'f world) result option \<Rightarrow> (exn option \<times> 'f event list) option" where
  "outcome r =
     map_option (\<lambda>y. case y of Inl (e, w) \<Rightarrow> (Some e, trace w) | Inr (a, w) \<Rightarrow> (None, trace w)) r"

text \<open>The model files a run has asked the loader for.\<close>

definition loaded ::
  "('f, 'a \<times> 'f world) result option \<Rightarrow> (exn option \<times> path list) option" where
  "loaded r = map_option (\<lambda>(e, tr). (e, loads tr)) (outcome r)"

subsection \<open>Test doubles\<close>

text \<open>
  A small environment for concrete runs. Frames and results are strings; the model's
  state counts the track calls; the shell leaves the given file, if any; the loader
  wants the file to be there; a video file yields one frame per byte, the byte
  \<open>!\<close> standing for a read error; the webcam never ends.
\<close>

definition demo_env :: "(path \<times> bytes) option \<Rightarrow> (nat, string, string) env" where
  "demo_env fetched =
     \<lparr>system = (\<lambda>command fs. case fetched of None \<Rightarrow> fs | Some (p, b) \<Rightarrow> fs(p \<mapsto> b)),
      YOLO = (\<lambda>fs p. case fs p of None \<Rightarrow> Inl (FileNotFoundError p) | Some b \<Rightarrow> Inr 0),
      predict = (\<lambda>m f c i cs. (''det '' @ f, m)),
      track = (\<lambda>m f c i cs persist. (''trk '' @ f, Suc m)),
      plot = (\<lambda>r. ''plot '' @ r),
      imdecode = (\<lambda>b. b),
      VideoCapture = (\<lambda>fs n.
        case n of
          No_name \<Rightarrow> None
        | Name p \<Rightarrow>
            (case fs p of
               None \<Rightarrow> None
             | Some b \<Rightarrow>
                 Some (stream_of (map (\<lambda>c. if c = CHR ''!'' then ReadError else Frame [c]) b)))
        | Device d \<Rightarrow> Some (\<lambda>i. Frame ''cam''))\<rparr>"

definition big_file :: bytes where
  "big_file = replicate 10001 (CHR ''w'')"

definition empty_world :: "'f world" where
  "empty_world = \<lparr>files = Map.empty, trace = []\<rparr>"

definition demo_ui :: ui where
  "demo_ui =
     \<lparr>ui_source = Webcam, ui_tracking = Yes, ui_conf = 0.25, ui_iou = 0.45,
      ui_video = None, ui_image = None, ui_model = 0, ui_start = False, ui_stop = False\<rparr>"

definition demo_self :: "nat Inference" where
  "demo_self =
     \<lparr>source = Some Video, enable_trk = Some Yes, conf = 0.25, iou = 0.45,
      vid_file_name = Name ''uploaded_video.mp4'', selected_ind = [], model = Some 0,
      temp_dict_model = None, model_path = None, image_data = None\<rparr>"

definition cached_world :: "string world" where
  "cached_world = \<lparr>files = [model_file ''YOLO11m_CBAM'' \<mapsto> ''stale''], trace = []\<rparr>"

definition video_world :: "bytes \<Rightarrow> string world" where
  "video_world b = \<lparr>files = [''uploaded_video.mp4'' \<mapsto> b], trace = []\<rparr>"

definition image_self :: "nat Inference" where
  "image_self = demo_self\<lparr>source := Some Image, image_data := Some ''pb''\<rparr>"

definition script :: "string list" where
  "script = [''streamlit_detection_OP.py'']"

text \<open>A world where the first model of the table is already on disk.\<close>

definition ready_world :: "string world" where
  "ready_world = \<lparr>files = [model_file ''YOLO11m_baseline'' \<mapsto> ''weights''], trace = []\<rparr>"

definition demo_init :: "nat Inference \<times> string world" where
  "demo_init = Inference_init None ready_world"

text \<open>An environment whose shell leaves a short error page in place of the first model.\<close>

definition tiny_env :: "(nat, string, string) env" where
  "tiny_env = demo_env (Some (model_file ''YOLO11m_baseline'', ''<html>''))"

definition baseline_id :: string where
  "baseline_id = ''1RYJiKwAV2Ueg05_W9U20Y_h0D5SYDFpC''"

section \<open>Properties\<close>

subsection \<open>Traces\<close>

lemma trace_log: "trace (log e w) = trace w @ [e]"
  by (simp add: log_def)

lemma files_log: "files (log e w) = files w"
  by (simp add: log_def)

lemma fetches_append: "fetches (xs @ ys) = fetches xs @ fetches ys"
  by (induction xs rule: fetches.induct) simp_all

lemma log_alt: "log e w = w\<lparr>trace := trace w @ [e]\<rparr>"
  by (simp add: log_def)

lemma since_append: "trace w' = trace w @ tr \<Longrightarrow> since w w' = tr"
  by (simp add: since_def)

lemma org_frames_append: "org_frames (xs @ ys) = org_frames xs @ org_frames ys"
  by (induction xs rule: org_frames.induct) simp_all

lemma ann_frames_append: "ann_frames (xs @ ys) = ann_frames xs @ ann_frames ys"
  by (induction xs rule: ann_frames.induct) simp_all

lemma warnings_append: "warnings (xs @ ys) = warnings xs @ warnings ys"
  by (induction xs rule: warnings.induct) simp_all

lemma opens_append: "opens (xs @ ys) = opens xs + opens ys"
  by (induction xs rule: opens.induct) simp_all

lemma releases_append: "releases (xs @ ys) = releases xs + releases ys"
  by (induction xs rule: releases.induct) simp_all

lemma model_calls_append: "model_calls (xs @ ys) = model_calls xs @ model_calls ys"
  by (induction xs rule: model_calls.induct) simp_all

lemma loads_append: "loads (xs @ ys) = loads xs @ loads ys"
  by (induction xs rule: loads.induct) simp_all

subsection \<open>The frame loop\<close>

lemma loop_call_ok:
  "model self = Some m \<Longrightarrow>
   (if enable_trk self = Some Yes then model_track E self f w else model_predict E self f w)
   = Inr (fst (loop_result E self m f), self\<lparr>model := Some (snd (loop_result E self m f))\<rparr>,
          log (loop_call self f) w)"
  by (simp add: model_track_def model_predict_def loop_call_def loop_result_def case_prod_beta)

lemma loop_fail:
  "cap_read (s i) = None \<Longrightarrow>
   stream_loop E s b self i w =
     Some (Inr (self, log (St_warning ''Failed to read frame.'') (log Cap_read w)))"
  by (subst stream_loop.simps) simp

lemma loop_stop:
  assumes "cap_read (s i) = Some f" "model self = Some m"
  shows "stream_loop E s True self i w =
     Some (Inl (StopException,
       log St_stop (log Cap_release (log (loop_call self f) (log Cap_read w)))))"
  using assms(1) loop_call_ok [OF assms(2), of E f "log Cap_read w"]
  by (subst stream_loop.simps) (simp del: if_split)

lemma loop_step:
  assumes "cap_read (s i) = Some f" "model self = Some m"
  shows "stream_loop E s False self i w =
     stream_loop E s False (self\<lparr>model := Some (snd (loop_result E self m f))\<rparr>) (Suc i)
       (log (Ann_image (plot E (fst (loop_result E self m f)))) (log (Org_image f)
         (log (loop_call self f) (log Cap_read w))))"
  using assms(1) loop_call_ok [OF assms(2), of E f "log Cap_read w"]
  by (subst stream_loop.simps) (simp del: if_split)


lemma loop_call_model [simp]: "loop_call (self\<lparr>model := x\<rparr>) = loop_call self"
  by (simp add: loop_call_def fun_eq_iff)

lemma loop_exit:
  assumes "stream_loop E s b self i w = Some y"
  shows "model self \<noteq> None \<longrightarrow>
   (case y of
      Inl (e, w') \<Rightarrow> e = StopException \<and> b
         \<and> releases (trace w') = Suc (releases (trace w)) \<and> opens (trace w') = opens (trace w)
    | Inr (self', w') \<Rightarrow>
         releases (trace w') = releases (trace w) \<and> opens (trace w') = opens (trace w))"
proof (induction E s b self i w y rule: stream_loop.raw_induct)
  case (1 loop E s b self i w y)
  show ?case
  proof
    assume "model self \<noteq> None"
    then obtain m where m: "model self = Some m" by auto
    show "case y of
      Inl (e, w') \<Rightarrow> e = StopException \<and> b
         \<and> releases (trace w') = Suc (releases (trace w)) \<and> opens (trace w') = opens (trace w)
    | Inr (self', w') \<Rightarrow>
         releases (trace w') = releases (trace w) \<and> opens (trace w') = opens (trace w)"
    proof (cases "cap_read (s i)")
      case None
      with "1"(2) show ?thesis
        by (auto simp: trace_log releases_append opens_append)
    next
      case (Some f)
      show ?thesis
      proof (cases b)
        case True
        with "1"(2) Some loop_call_ok [OF m, of E f "log Cap_read w"] show ?thesis
          by (auto simp: trace_log releases_append opens_append loop_call_def simp del: if_split)
      next
        case False
        let ?self2 = "self\<lparr>model := Some (snd (loop_result E self m f))\<rparr>"
        let ?w2 = "log (Ann_image (plot E (fst (loop_result E self m f)))) (log (Org_image f)
           (log (loop_call self f) (log Cap_read w)))"
        from "1"(2) Some False loop_call_ok [OF m, of E f "log Cap_read w"]
        have lp: "loop E s b ?self2 (Suc i) ?w2 = Some y"
          by (simp del: if_split)
        from "1"(1) [OF lp] have
          "case y of
             Inl (e, w') \<Rightarrow> e = StopException \<and> b
               \<and> releases (trace w') = Suc (releases (trace ?w2)) \<and> opens (trace w') = opens (trace ?w2)
           | Inr (self', w') \<Rightarrow>
               releases (trace w') = releases (trace ?w2) \<and> opens (trace w') = opens (trace ?w2)"
          by simp
        then show ?thesis
          by (auto simp: trace_log releases_append opens_append loop_call_def split: sum.splits)
      qed
    qed
  qed
qed (rule assms)

subsection \<open>The downloader\<close>

text \<open>
  C9. When the artifact file already exists at \<^verbatim>\<open>models/<name>.pt\<close>, whatever it
  holds, \<^verbatim>\<open>download_from_gdrive\<close> only prints that it exists: it returns without
  running the shell command, so no remote fetch is made, and the files are left as they
  were.
\<close>

theorem cached_model_is_reused:
  "files w (model_file model_name) = Some b \<Longrightarrow>
   download_from_gdrive E file_id model_name w = Inr (log (Print (Already_exists model_name)) w)
   \<and> files (log (Print (Already_exists model_name)) w) = files w
   \<and> fetches (trace (log (Print (Already_exists model_name)) w)) = fetches (trace w)"
  by (simp add: download_from_gdrive_def trace_log files_log fetches_append)

theorem cached_model_is_reused_witness:
  "files cached_world (model_file ''YOLO11m_CBAM'') = Some ''stale''
   \<and> download_from_gdrive (demo_env (Some (model_file ''YOLO11m_CBAM'', big_file)))
        ''1jKIStEJRGLGhvEPtAx3tRf8O4VLLwwdB'' ''YOLO11m_CBAM'' cached_world
      = Inr (log (Print (Already_exists ''YOLO11m_CBAM'')) cached_world)
   \<and> fetches (trace (log (Print (Already_exists ''YOLO11m_CBAM'')) cached_world)) = []"
proof -
  have h: "files cached_world (model_file ''YOLO11m_CBAM'') = Some ''stale''"
    by (simp add: cached_world_def)
  have t: "fetches (trace cached_world) = []"
    by (simp add: cached_world_def)
  show ?thesis
    using h t cached_model_is_reused [OF h,
        of "demo_env (Some (model_file ''YOLO11m_CBAM'', big_file))"
           "''1jKIStEJRGLGhvEPtAx3tRf8O4VLLwwdB''"]
    by simp
qed

subsection \<open>Runs over a video or a webcam\<close>

lemma stream_run_opened:
  "VideoCapture E (files w) (vid_file_name self) = Some s \<Longrightarrow>
   stream_run E U self w =
     (case stream_loop E s (ui_stop U) self 0
             (w\<lparr>trace := trace w @ [Button ''Stop'', Cap_open (vid_file_name self)]\<rparr>) of
        None \<Rightarrow> None
      | Some (Inl x) \<Rightarrow> Some (Inl x)
      | Some (Inr (self', w3)) \<Rightarrow> Some (Inr (self', log Cap_release w3)))"
  by (simp add: stream_run_def log_alt)

text \<open>
  Against C1 as stated: the claim has the end of the stream lead to Stopped and never to
  Failed, apart from a read error. On a video of two frames the run ends with the warning
  that a read failed, and the run is event for event the one of the same two frames
  followed by a read error.
\<close>

theorem end_of_stream_warns_like_a_failed_read:
  "outcome (stream_run (demo_env None) demo_ui demo_self (video_world ''ab'')) =
     Some (None,
       [Button ''Stop'', Cap_open (Name ''uploaded_video.mp4''),
        Cap_read, Track ''a'' 0.25 0.45 [] True, Org_image ''a'', Ann_image ''plot trk a'',
        Cap_read, Track ''b'' 0.25 0.45 [] True, Org_image ''b'', Ann_image ''plot trk b'',
        Cap_read, St_warning ''Failed to read frame.'', Cap_release])
   \<and> outcome (stream_run (demo_env None) demo_ui demo_self (video_world ''ab!'')) =
       outcome (stream_run (demo_env None) demo_ui demo_self (video_world ''ab''))"
  by code_simp

text \<open>
  Against C3 as stated: the claim has every iteration show the pair first and test the
  signal afterwards, so that a stop seen at the first frame still follows one emission.
  With Stop set on a video of two frames, the first frame is read and given to the model,
  then the capture is released and the script stopped; nothing is shown.
\<close>

theorem stop_discards_the_frame_in_flight:
  "outcome (stream_run (demo_env None) (demo_ui\<lparr>ui_stop := True\<rparr>) demo_self (video_world ''ab'')) =
     Some (Some StopException,
       [Button ''Stop'', Cap_open (Name ''uploaded_video.mp4''),
        Cap_read, Track ''a'' 0.25 0.45 [] True, Cap_release, St_stop])"
  by code_simp

subsection \<open>Runs over a still image\<close>

lemma model_predict_ok:
  "model self = Some m \<Longrightarrow>
   model_predict E self f w =
     Inr (fst (predict E m f (conf self) (iou self) (selected_ind self)),
          self\<lparr>model := Some (snd (predict E m f (conf self) (iou self) (selected_ind self)))\<rparr>,
          log (Predict f (conf self) (iou self) (selected_ind self)) w)"
  by (simp add: model_predict_def case_prod_beta)

lemma image_run_ok:
  assumes "image_data self = Some data" "model self = Some m"
  shows "image_run E self w =
     Inr (self\<lparr>model := Some (snd (predict E m (imdecode E data) (conf self) (iou self) (selected_ind self)))\<rparr>,
          w\<lparr>trace := trace w @
            [Imdecode, Predict (imdecode E data) (conf self) (iou self) (selected_ind self),
             Org_image (imdecode E data),
             Ann_image (plot E (fst (predict E m (imdecode E data) (conf self) (iou self)
                                       (selected_ind self))))]\<rparr>)"
  using assms by (simp add: image_run_def model_predict_ok log_alt Let_def)

text \<open>
  C4. With the image source selected, an image uploaded and the model loaded, what the
  Start button runs, for any thresholds and any class list, is: decode the image, call
  the model once on it, show the original and the annotated image once, close the OpenCV
  windows and return normally. No Stop button is created and none is read: the run is
  the same whatever the user interface holds.
\<close>

theorem image_run_emits_once:
  assumes "source self = Some Image"
    and "image_data self = Some data"
    and "model self = Some m"
  shows "\<exists>self' w'. start_run E U self w = Some (Inr (self', w'))
           \<and> since w w' =
               [Imdecode, Predict (imdecode E data) (conf self) (iou self) (selected_ind self),
                Org_image (imdecode E data),
                Ann_image (plot E (fst (predict E m (imdecode E data) (conf self) (iou self)
                                          (selected_ind self)))),
                Destroy_all_windows]
           \<and> emissions (since w w') =
               [(imdecode E data,
                 plot E (fst (predict E m (imdecode E data) (conf self) (iou self)
                                (selected_ind self))))]"
proof -
  let ?image = "imdecode E data"
  let ?r = "predict E m ?image (conf self) (iou self) (selected_ind self)"
  let ?tr = "[Imdecode, Predict ?image (conf self) (iou self) (selected_ind self),
              Org_image ?image, Ann_image (plot E (fst ?r)), Destroy_all_windows]"
  let ?w' = "w\<lparr>trace := trace w @ ?tr\<rparr>"
  have "start_run E U self w = Some (Inr (self\<lparr>model := Some (snd ?r)\<rparr>, ?w'))"
    using assms(1) by (simp add: start_run_def image_run_ok [OF assms(2,3)] log_alt)
  moreover have "since w ?w' = ?tr"
    by (rule since_append) simp
  moreover have "emissions ?tr = [(?image, plot E (fst ?r))]"
    by (simp add: emissions_def)
  ultimately show ?thesis by metis
qed

theorem image_run_emits_once_witness:
  "\<exists>self' w'. start_run (demo_env None) (demo_ui\<lparr>ui_stop := True\<rparr>) image_self empty_world
        = Some (Inr (self', w'))
     \<and> since empty_world w' =
         [Imdecode, Predict ''pb'' 0.25 0.45 [], Org_image ''pb'', Ann_image ''plot det pb'',
          Destroy_all_windows]
     \<and> emissions (since empty_world w') = [(''pb'', ''plot det pb'')]"
proof -
  have h1: "source image_self = Some Image"
    by (simp add: image_self_def)
  have h2: "image_data image_self = Some ''pb''"
    by (simp add: image_self_def)
  have h3: "model image_self = Some 0"
    by (simp add: image_self_def demo_self_def)
  have c: "conf image_self = 0.25" "iou image_self = 0.45" "selected_ind image_self = []"
    by (simp_all add: image_self_def demo_self_def)
  show ?thesis
    using image_run_emits_once [OF h1 h2 h3, of "demo_env None"
        "demo_ui\<lparr>ui_stop := True\<rparr>" "empty_world"]
    by (simp add: c demo_env_def)
qed

subsection \<open>The calls made to the model\<close>

lemma loop_iteration:
  assumes "cap_read (s i) = Some f" "model self = Some m"
  shows "stream_loop E s b self i w =
           after_call E s b self i w f (loop_call self f) (loop_result E self m f)"
proof (cases b)
  case True
  then show ?thesis
    using assms loop_stop [of s i f self m E w] by (simp add: after_call_def log_alt)
next
  case False
  then show ?thesis
    using assms loop_step [of s i f self m E w] by (simp add: after_call_def log_alt)
qed

lemma image_run_calls:
  assumes "source self = Some Image"
    and "image_data self = Some data"
    and "model self = Some m"
  shows "\<exists>self' w'. start_run E U self w = Some (Inr (self', w'))
           \<and> model_calls (since w w') =
               [Predict (imdecode E data) (conf self) (iou self) (selected_ind self)]
           \<and> ann_frames (since w w') =
               [plot E (fst (predict E m (imdecode E data) (conf self) (iou self)
                               (selected_ind self)))]"
proof -
  let ?image = "imdecode E data"
  let ?r = "predict E m ?image (conf self) (iou self) (selected_ind self)"
  let ?tr = "[Imdecode, Predict ?image (conf self) (iou self) (selected_ind self),
              Org_image ?image, Ann_image (plot E (fst ?r)), Destroy_all_windows]"
  let ?w' = "w\<lparr>trace := trace w @ ?tr\<rparr>"
  have "start_run E U self w = Some (Inr (self\<lparr>model := Some (snd ?r)\<rparr>, ?w'))"
    using assms(1) by (simp add: start_run_def image_run_ok [OF assms(2,3)] log_alt)
  moreover have "since w ?w' = ?tr"
    by (rule since_append) simp
  moreover have "model_calls ?tr = [Predict ?image (conf self) (iou self) (selected_ind self)]"
    "ann_frames ?tr = [plot E (fst ?r)]"
    by simp_all
  ultimately show ?thesis by metis
qed

text \<open>
  C6, as the code has it. In every iteration of the video and webcam loop whose read
  succeeds, the call is chosen by the tracking flag alone: with tracking on \<^verbatim>\<open>Yes\<close> it
  is \<^verbatim>\<open>track\<close> on the frame with the stored confidence, IoU and class list and
  \<^verbatim>\<open>persist=True\<close>, otherwise it is the plain prediction with the same three values;
  the iteration goes on from the result of that call. A still image is always given to
  the plain prediction, whatever the tracking flag.
\<close>

theorem inference_mode_follows_tracking_flag_in_loop:
  "(cap_read (s i) = Some f \<and> model self = Some m \<longrightarrow>
      stream_loop E s b self i w =
        (if enable_trk self = Some Yes
         then after_call E s b self i w f
                (Track f (conf self) (iou self) (selected_ind self) True)
                (track E m f (conf self) (iou self) (selected_ind self) True)
         else after_call E s b self i w f
                (Predict f (conf self) (iou self) (selected_ind self))
                (predict E m f (conf self) (iou self) (selected_ind self))))
   \<and> (source self = Some Image \<and> image_data self = Some data \<and> model self = Some m \<longrightarrow>
        (\<exists>self' w'. start_run E U self w = Some (Inr (self', w'))
           \<and> model_calls (since w w') =
               [Predict (imdecode E data) (conf self) (iou self) (selected_ind self)]))"
proof (intro conjI impI)
  assume "cap_read (s i) = Some f \<and> model self = Some m"
  then show "stream_loop E s b self i w =
        (if enable_trk self = Some Yes
         then after_call E s b self i w f
                (Track f (conf self) (iou self) (selected_ind self) True)
                (track E m f (conf self) (iou self) (selected_ind self) True)
         else after_call E s b self i w f
                (Predict f (conf self) (iou self) (selected_ind self))
                (predict E m f (conf self) (iou self) (selected_ind self)))"
    using loop_iteration [of s i f self m E b w]
    by (simp add: loop_call_def loop_result_def)
next
  assume "source self = Some Image \<and> image_data self = Some data \<and> model self = Some m"
  then show "\<exists>self' w'. start_run E U self w = Some (Inr (self', w'))
           \<and> model_calls (since w w') =
               [Predict (imdecode E data) (conf self) (iou self) (selected_ind self)]"
    using image_run_calls [of self data m E U w] by blast
qed

theorem inference_mode_follows_tracking_flag_in_loop_witness:
  "stream_loop (demo_env None) (stream_of [Frame ''a'']) True demo_self 0 empty_world =
     Some (Inl (StopException,
       empty_world\<lparr>trace := [Cap_read, Track ''a'' 0.25 0.45 [] True, Cap_release, St_stop]\<rparr>))
   \<and> stream_loop (demo_env None) (stream_of [Frame ''a'']) True
        (demo_self\<lparr>enable_trk := Some No\<rparr>) 0 empty_world =
     Some (Inl (StopException,
       empty_world\<lparr>trace := [Cap_read, Predict ''a'' 0.25 0.45 [], Cap_release, St_stop]\<rparr>))
   \<and> (\<exists>self' w'. start_run (demo_env None) demo_ui image_self empty_world = Some (Inr (self', w'))
         \<and> model_calls (since empty_world w') = [Predict ''pb'' 0.25 0.45 []])"
proof -
  have r: "cap_read (stream_of [Frame ''a''] 0) = Some ''a''"
    by (simp add: cap_read_def stream_of_def)
  have m: "model demo_self = Some 0" "model (demo_self\<lparr>enable_trk := Some No\<rparr>) = Some 0"
    by (simp_all add: demo_self_def)
  have i: "source image_self = Some Image" "image_data image_self = Some ''pb''"
    "model image_self = Some 0"
    by (simp_all add: image_self_def demo_self_def)
  have c: "conf image_self = 0.25" "iou image_self = 0.45" "selected_ind image_self = []"
    by (simp_all add: image_self_def demo_self_def)
  show ?thesis
    using
      inference_mode_follows_tracking_flag_in_loop [of "stream_of [Frame ''a'']" 0 "''a''"
        demo_self 0 "demo_env None" True empty_world "''pb''" demo_ui]
      inference_mode_follows_tracking_flag_in_loop [of "stream_of [Frame ''a'']" 0 "''a''"
        "demo_self\<lparr>enable_trk := Some No\<rparr>" 0 "demo_env None" True empty_world "''pb''" demo_ui]
      inference_mode_follows_tracking_flag_in_loop [of _ _ _
        image_self 0 "demo_env None" _ empty_world "''pb''" demo_ui]
      r m i
    by (simp add: c after_call_def demo_self_def demo_env_def empty_world_def)
qed

text \<open>
  Against C6 as stated: the claim has every per-iteration step follow the tracking flag.
  With tracking on \<^verbatim>\<open>Yes\<close>, the single step of a still image calls the plain
  prediction; no track call is made.
\<close>

theorem image_is_never_tracked:
  "enable_trk image_self = Some Yes
   \<and> outcome (start_run (demo_env None) demo_ui image_self empty_world) =
       Some (None,
         [Imdecode, Predict ''pb'' 0.25 0.45 [], Org_image ''pb'', Ann_image ''plot det pb'',
          Destroy_all_windows])"
  by code_simp

subsection \<open>What the setup leaves in the object\<close>

lemma inference_setup_fields:
  assumes "inference_setup E U self w = Inr (self1, w1)"
  shows "selected_ind self1 = selected_ind self"
    and "source self1 = Some (ui_source U)"
    and "ui_source U = Image \<Longrightarrow> image_data self1 = (case ui_image U of None \<Rightarrow> image_data self | Some b \<Rightarrow> Some b)"
  using assms
  by (auto simp: inference_setup_def sidebar_def source_upload_def configure_def Let_def
      split: option.splits sum.splits if_splits)

subsection \<open>The whole script\<close>

text \<open>
  C10. In a script run where the image source is selected, no image file is uploaded
  and Start is pressed, once the model has been configured the run raises AttributeError
  on \<^verbatim>\<open>image_data\<close>: the constructor does not create the attribute,
  \<^verbatim>\<open>source_upload\<close> assigns it only when a file is there, and the Start handler
  reads it without a guard. Nothing is decoded, given to the model or shown.
\<close>

theorem missing_image_raises_AttributeError:
  assumes "Inference_init model_arg w0 = (self0, w)"
    and "inference_setup E U self0 w = Inr (self1, w1)"
    and "ui_source U = Image"
    and "ui_image U = None"
    and "ui_start U"
  shows "image_data self1 = None
       \<and> inference E U self0 w =
           Some (Inl (AttributeError ''image_data'', log (Button ''Start'') w1))"
proof -
  have "image_data self0 = None"
    using assms(1) by (auto simp: Inference_init_def)
  then have a: "image_data self1 = None"
    using inference_setup_fields(3) [OF assms(2,3)] assms(4) by simp
  have b: "source self1 = Some Image"
    using inference_setup_fields(2) [OF assms(2)] assms(3) by simp
  show ?thesis
    using a b assms(2,5)
    by (simp add: inference_def start_run_def image_run_def)
qed

theorem missing_image_raises_AttributeError_witness:
  "\<exists>self1 w1.
     inference_setup (demo_env None) (demo_ui\<lparr>ui_source := Image, ui_start := True\<rparr>)
       (fst demo_init) (snd demo_init) = Inr (self1, w1)
     \<and> image_data self1 = None
     \<and> inference (demo_env None) (demo_ui\<lparr>ui_source := Image, ui_start := True\<rparr>)
         (fst demo_init) (snd demo_init) =
         Some (Inl (AttributeError ''image_data'', log (Button ''Start'') w1))"
proof -
  let ?U = "demo_ui\<lparr>ui_source := Image, ui_start := True\<rparr>"
  have "case inference_setup (demo_env None) ?U (fst demo_init) (snd demo_init) of
          Inl x \<Rightarrow> False | Inr x \<Rightarrow> True"
    by code_simp
  then obtain self1 w1 where
    s1: "inference_setup (demo_env None) ?U (fst demo_init) (snd demo_init) = Inr (self1, w1)"
    by (cases "inference_setup (demo_env None) ?U (fst demo_init) (snd demo_init)") auto
  have i0: "Inference_init None ready_world = (fst demo_init, snd demo_init)"
    by (simp add: demo_init_def)
  have u: "ui_source ?U = Image" "ui_image ?U = None" "ui_start ?U"
    by (simp_all add: demo_ui_def)
  show ?thesis
    using missing_image_raises_AttributeError [OF i0 s1 u] s1 by blast
qed

text \<open>
  C5 against the code. The script is started with the model \<^verbatim>\<open>YOLO11m_CBAM\<close> as its
  argument, the model selector is left untouched and the first model of the table is on
  disk. The argument is stored in the object, and the model handed to the loader is the
  first of the table, \<^verbatim>\<open>YOLO11m_baseline\<close>, exactly as when the script is started
  with no argument.
\<close>

theorem model_argument_is_ignored:
  "loaded (main (script @ [''YOLO11m_CBAM'']) (demo_env None) demo_ui ready_world) =
     Some (None, [''models/YOLO11m_baseline.pt''])
   \<and> loaded (main script (demo_env None) demo_ui ready_world) =
     Some (None, [''models/YOLO11m_baseline.pt''])
   \<and> model_path (fst (Inference_init (Some ''YOLO11m_CBAM'') (empty_world :: string world))
        :: nat Inference) = Some ''YOLO11m_CBAM''"
  by code_simp

subsection \<open>A download that fails\<close>

lemma download_attempt_failed:
  assumes "case system E command (files w) (model_file model_name) of
             None \<Rightarrow> True | Some b \<Rightarrow> length b \<le> 10000"
  shows "\<exists>w' tr. (download_attempt E command model_name w = Inr w'
               \<or> download_attempt E command model_name w
                   = Inl (FileNotFoundError (model_file model_name), w'))
         \<and> files w' (model_file model_name) = None
         \<and> trace w' = trace w @ tr
         \<and> fetches tr = [command]
         \<and> Print (Download_failed model_name) \<in> set tr
         \<and> (\<forall>b. system E command (files w) (model_file model_name) = Some b \<longrightarrow>
               Remove (model_file model_name) \<in> set tr)"
proof (cases "system E command (files w) (model_file model_name)")
  case None
  let ?tr = "[System command, Print (Download_failed model_name)]"
  let ?w' = "w\<lparr>files := system E command (files w), trace := trace w @ ?tr\<rparr>"
  from None have "download_attempt E command model_name w
      = Inl (FileNotFoundError (model_file model_name), ?w')"
    by (simp add: download_attempt_def os_system_def os_remove_def log_def Let_def)
  with None show ?thesis
    by (intro exI [of _ ?w'] exI [of _ ?tr]) simp
next
  case (Some b)
  let ?tr = "[System command, Print (Download_failed model_name), Remove (model_file model_name)]"
  let ?w' = "w\<lparr>files := (system E command (files w))(model_file model_name := None),
               trace := trace w @ ?tr\<rparr>"
  from Some assms have "download_attempt E command model_name w = Inr ?w'"
    by (simp add: download_attempt_def os_system_def os_remove_def log_def Let_def)
  then show ?thesis
    by (intro exI [of _ ?w'] exI [of _ ?tr]) simp
qed

lemma configure_selected:
  assumes "selectbox (map fst GDRIVE_MODELS) (ui_model U) = Some model_name"
    and "map_of GDRIVE_MODELS model_name = Some file_id"
    and "download_from_gdrive E file_id model_name w = Inr w'"
  shows "configure E U self w =
     (case YOLO E (files w') (model_file model_name) of
        Inl e \<Rightarrow> Inl (e, log (Load_model (model_file model_name)) w')
      | Inr m \<Rightarrow>
          Inr (self\<lparr>model := Some m\<rparr>,
               log (St_success ''Model loaded successfully!'')
                 (log (Load_model (model_file model_name)) w')))"
  using assms by (simp add: configure_def Let_def files_log)

text \<open>
  C8, as the code has it. When the artifact is not on disk and the shell command leaves
  no file, or one of at most 10000 bytes, \<^verbatim>\<open>download_from_gdrive\<close> raises nothing:
  it prints that the download failed, removes the file if there is one (the attempt to
  remove a file that is not there is caught and printed), and returns with no artifact on
  disk. \<^verbatim>\<open>configure\<close> then goes on to hand the path to the loader, and fails exactly
  when the loader does, with the loader's error.
\<close>

theorem failed_download_is_printed_not_raised:
  assumes absent: "files w (model_file model_name) = None"
    and bad: "case system E (wget_command (model_file model_name) (gdrive_url file_id)) (files w)
                     (model_file model_name) of
                None \<Rightarrow> True | Some b \<Rightarrow> length b \<le> 10000"
  shows "\<exists>w'. download_from_gdrive E file_id model_name w = Inr w'
          \<and> files w' (model_file model_name) = None
          \<and> Print (Download_failed model_name) \<in> set (since w w')
          \<and> fetches (since w w') = [wget_command (model_file model_name) (gdrive_url file_id)]
          \<and> (\<forall>b. system E (wget_command (model_file model_name) (gdrive_url file_id)) (files w)
                     (model_file model_name) = Some b \<longrightarrow>
                 Remove (model_file model_name) \<in> set (since w w'))
          \<and> (\<forall>U self. selectbox (map fst GDRIVE_MODELS) (ui_model U) = Some model_name \<longrightarrow>
                 map_of GDRIVE_MODELS model_name = Some file_id \<longrightarrow>
                 configure E U self w =
                   (case YOLO E (files w') (model_file model_name) of
                      Inl e \<Rightarrow> Inl (e, log (Load_model (model_file model_name)) w')
                    | Inr m \<Rightarrow>
                        Inr (self\<lparr>model := Some m\<rparr>,
                             log (St_success ''Model loaded successfully!'')
                               (log (Load_model (model_file model_name)) w'))))"
proof -
  let ?cmd = "wget_command (model_file model_name) (gdrive_url file_id)"
  let ?w2 = "log (Print (Downloading model_name)) (log (Makedirs ''models'') w)"
  have bad2: "case system E ?cmd (files ?w2) (model_file model_name) of
                None \<Rightarrow> True | Some b \<Rightarrow> length b \<le> 10000"
    using bad by (simp add: files_log)
  from download_attempt_failed [OF bad2] obtain w3 tr where
    att: "download_attempt E ?cmd model_name ?w2 = Inr w3
          \<or> download_attempt E ?cmd model_name ?w2
              = Inl (FileNotFoundError (model_file model_name), w3)"
    and w3: "files w3 (model_file model_name) = None" "trace w3 = trace ?w2 @ tr"
    and tr: "fetches tr = [?cmd]" "Print (Download_failed model_name) \<in> set tr"
      "\<forall>b. system E ?cmd (files ?w2) (model_file model_name) = Some b \<longrightarrow>
           Remove (model_file model_name) \<in> set tr"
    by blast
  from att obtain w' tr' where
    run: "download_from_gdrive E file_id model_name w = Inr w'"
    and w': "files w' = files w3" "trace w' = trace w3 @ tr'" "fetches tr' = []"
  proof
    assume "download_attempt E ?cmd model_name ?w2 = Inr w3"
    then have "download_from_gdrive E file_id model_name w = Inr w3"
      using absent by (simp add: download_from_gdrive_def Let_def)
    then show thesis
      using that [of w3 "[]"] by simp
  next
    assume "download_attempt E ?cmd model_name ?w2
              = Inl (FileNotFoundError (model_file model_name), w3)"
    then have "download_from_gdrive E file_id model_name w
        = Inr (log (Print (Download_error (FileNotFoundError (model_file model_name)))) w3)"
      using absent by (simp add: download_from_gdrive_def Let_def)
    then show thesis
      using that [of "log (Print (Download_error (FileNotFoundError (model_file model_name)))) w3"
          "[Print (Download_error (FileNotFoundError (model_file model_name)))]"]
      by (simp add: files_log trace_log)
  qed
  let ?tr = "[Makedirs ''models'', Print (Downloading model_name)] @ tr @ tr'"
  have "trace w' = trace w @ ?tr"
    using w'(2) w3(2) by (simp add: trace_log)
  then have s: "since w w' = ?tr"
    by (rule since_append)
  have "files w' (model_file model_name) = None"
    using w'(1) w3(1) by simp
  moreover have "Print (Download_failed model_name) \<in> set (since w w')"
    using s tr(2) by simp
  moreover have "fetches (since w w') = [?cmd]"
    using s tr(1) w'(3) by (simp add: fetches_append)
  moreover have "\<forall>b. system E ?cmd (files w) (model_file model_name) = Some b \<longrightarrow>
                   Remove (model_file model_name) \<in> set (since w w')"
    using s tr(3) by (simp add: files_log)
  moreover have "\<forall>U self. selectbox (map fst GDRIVE_MODELS) (ui_model U) = Some model_name \<longrightarrow>
                 map_of GDRIVE_MODELS model_name = Some file_id \<longrightarrow>
                 configure E U self w =
                   (case YOLO E (files w') (model_file model_name) of
                      Inl e \<Rightarrow> Inl (e, log (Load_model (model_file model_name)) w')
                    | Inr m \<Rightarrow>
                        Inr (self\<lparr>model := Some m\<rparr>,
                             log (St_success ''Model loaded successfully!'')
                               (log (Load_model (model_file model_name)) w')))"
    using configure_selected [OF _ _ run] by blast
  ultimately show ?thesis
    using run by blast
qed


theorem failed_download_is_printed_not_raised_witness:
  "\<exists>w'. download_from_gdrive tiny_env baseline_id ''YOLO11m_baseline'' empty_world = Inr w'
      \<and> files w' (model_file ''YOLO11m_baseline'') = None
      \<and> Print (Download_failed ''YOLO11m_baseline'') \<in> set (since empty_world w')
      \<and> Remove (model_file ''YOLO11m_baseline'') \<in> set (since empty_world w')
      \<and> configure tiny_env demo_ui demo_self empty_world =
          Inl (FileNotFoundError (model_file ''YOLO11m_baseline''),
               log (Load_model (model_file ''YOLO11m_baseline'')) w')"
proof -
  let ?p = "model_file ''YOLO11m_baseline''"
  let ?cmd = "wget_command ?p (gdrive_url baseline_id)"
  have h1: "files (empty_world :: string world) ?p = None"
    by (simp add: empty_world_def)
  have sys: "system tiny_env ?cmd (files (empty_world :: string world)) ?p = Some ''<html>''"
    by (simp add: tiny_env_def demo_env_def)
  have h2: "case system tiny_env ?cmd (files (empty_world :: string world)) ?p of
              None \<Rightarrow> True | Some b \<Rightarrow> length b \<le> 10000"
    by (simp add: sys)
  have sel: "selectbox (map fst GDRIVE_MODELS) (ui_model demo_ui) = Some ''YOLO11m_baseline''"
    by (simp add: selectbox_def GDRIVE_MODELS_def demo_ui_def)
  have tab: "map_of GDRIVE_MODELS ''YOLO11m_baseline'' = Some baseline_id"
    by (simp add: GDRIVE_MODELS_def baseline_id_def)
  from failed_download_is_printed_not_raised [OF h1 h2] obtain w' where
    run: "download_from_gdrive tiny_env baseline_id ''YOLO11m_baseline'' empty_world = Inr w'"
    and gone: "files w' ?p = None"
    and said: "Print (Download_failed ''YOLO11m_baseline'') \<in> set (since empty_world w')"
    and rm: "\<forall>b. system tiny_env ?cmd (files (empty_world :: string world)) ?p = Some b \<longrightarrow>
                Remove ?p \<in> set (since empty_world w')"
    and conf: "\<forall>U self. selectbox (map fst GDRIVE_MODELS) (ui_model U) = Some ''YOLO11m_baseline'' \<longrightarrow>
                 map_of GDRIVE_MODELS ''YOLO11m_baseline'' = Some baseline_id \<longrightarrow>
                 configure tiny_env U self empty_world =
                   (case YOLO tiny_env (files w') ?p of
                      Inl e \<Rightarrow> Inl (e, log (Load_model ?p) w')
                    | Inr m \<Rightarrow>
                        Inr (self\<lparr>model := Some m\<rparr>,
                             log (St_success ''Model loaded successfully!'')
                               (log (Load_model ?p) w')))"
    by blast
  have "YOLO tiny_env (files w') ?p = Inl (FileNotFoundError ?p)"
    using gone by (simp add: tiny_env_def demo_env_def)
  then have "configure tiny_env demo_ui demo_self empty_world =
      Inl (FileNotFoundError ?p, log (Load_model ?p) w')"
    using conf sel tab by simp
  moreover have "Remove ?p \<in> set (since empty_world w')"
    using rm sys by blast
  ultimately show ?thesis
    using run gone said by blast
qed

text \<open>
  Against C8 as stated: the claim has the resolution of the model fail with an error when
  the fetch fails or the artifact is too small. Where the shell leaves no file, and where
  it leaves a page of six bytes, \<^verbatim>\<open>download_from_gdrive\<close> returns normally, having
  printed its messages (and, in the second case, removed the file). The script goes on to
  call the loader on the missing file, and the error that ends it is the loader's.
\<close>

theorem failed_download_returns_normally:
  "download_from_gdrive (demo_env None) baseline_id ''YOLO11m_baseline'' empty_world =
     Inr \<lparr>files = Map.empty,
          trace =
            [Makedirs ''models'', Print (Downloading ''YOLO11m_baseline''),
             System (wget_command (model_file ''YOLO11m_baseline'') (gdrive_url baseline_id)),
             Print (Download_failed ''YOLO11m_baseline''),
             Print (Download_error (FileNotFoundError (model_file ''YOLO11m_baseline'')))]\<rparr>
   \<and> download_from_gdrive tiny_env baseline_id ''YOLO11m_baseline'' empty_world =
     Inr \<lparr>files = Map.empty,
          trace =
            [Makedirs ''models'', Print (Downloading ''YOLO11m_baseline''),
             System (wget_command (model_file ''YOLO11m_baseline'') (gdrive_url baseline_id)),
             Print (Download_failed ''YOLO11m_baseline''),
             Remove (model_file ''YOLO11m_baseline'')]\<rparr>
   \<and> loaded (main script (demo_env None) demo_ui empty_world) =
     Some (Some (FileNotFoundError ''models/YOLO11m_baseline.pt''),
           [''models/YOLO11m_baseline.pt''])"
proof -
  have a: "download_from_gdrive (demo_env None) baseline_id ''YOLO11m_baseline'' empty_world =
     Inr \<lparr>files = Map.empty,
          trace =
            [Makedirs ''models'', Print (Downloading ''YOLO11m_baseline''),
             System (wget_command (model_file ''YOLO11m_baseline'') (gdrive_url baseline_id)),
             Print (Download_failed ''YOLO11m_baseline''),
             Print (Download_error (FileNotFoundError (model_file ''YOLO11m_baseline'')))]\<rparr>"
    by (simp add: download_from_gdrive_def download_attempt_def os_system_def os_remove_def
        log_def demo_env_def empty_world_def Let_def)
  have b: "download_from_gdrive tiny_env baseline_id ''YOLO11m_baseline'' empty_world =
     Inr \<lparr>files = Map.empty,
          trace =
            [Makedirs ''models'', Print (Downloading ''YOLO11m_baseline''),
             System (wget_command (model_file ''YOLO11m_baseline'') (gdrive_url baseline_id)),
             Print (Download_failed ''YOLO11m_baseline''),
             Remove (model_file ''YOLO11m_baseline'')]\<rparr>"
    by (simp add: download_from_gdrive_def download_attempt_def os_system_def os_remove_def
        log_def tiny_env_def demo_env_def empty_world_def Let_def)
  have c: "loaded (main script (demo_env None) demo_ui empty_world) =
     Some (Some (FileNotFoundError ''models/YOLO11m_baseline.pt''),
           [''models/YOLO11m_baseline.pt''])"
    by code_simp
  show ?thesis
    using a b c by blast
qed

subsection \<open>Leaving the video and webcam branch\<close>

lemma loop_leaves_on_stop:
  assumes "model self = Some m"
  shows "stream_loop E s True self i w \<noteq> None"
proof (cases "cap_read (s i)")
  case None
  then show ?thesis by (simp add: loop_fail)
next
  case (Some f)
  then show ?thesis
    using assms loop_stop [of s i f self m E w] by simp
qed

lemma loop_leaves_on_failed_read:
  assumes "cap_read (s n) = None" "i \<le> n" "model self = Some m"
  shows "stream_loop E s b self i w \<noteq> None"
proof (cases b)
  case True
  then show ?thesis using loop_leaves_on_stop [OF assms(3)] by simp
next
  case False
  have "stream_loop E s False self i w \<noteq> None"
    using assms
  proof (induction "n - i" arbitrary: i self w m)
    case 0
    then have "cap_read (s i) = None" by simp
    then show ?case by (simp add: loop_fail)
  next
    case (Suc k)
    show ?case
    proof (cases "cap_read (s i)")
      case None
      then show ?thesis by (simp add: loop_fail)
    next
      case (Some f)
      let ?self2 = "self\<lparr>model := Some (snd (loop_result E self m f))\<rparr>"
      have "k = n - Suc i" "Suc i \<le> n" "model ?self2 = Some (snd (loop_result E self m f))"
        using Suc.hyps(2) by simp_all
      from Suc.hyps(1) [OF this(1) Suc.prems(1) this(2,3)] show ?thesis
        using Some Suc.prems(3) loop_step [of s i f self m E w] by simp
    qed
  qed
  with False show ?thesis by simp
qed

text \<open>
  C2. Whenever a run over a video or a webcam, with the model loaded, leaves the branch,
  by returning after an unsuccessful read (end of stream or read failure), by returning
  because the capture did not open, or by \<^verbatim>\<open>st.stop()\<close> after the Stop button, the
  capture was created once and released once. And the run does leave the branch when
  the capture does not open, when the Stop button is set, or when some read of the
  capture is unsuccessful.
\<close>

theorem capture_released_exactly_once:
  assumes "model self = Some m"
  shows "(\<forall>y. stream_run E U self w = Some y \<longrightarrow>
            opens (trace (world_of y)) = Suc (opens (trace w))
          \<and> releases (trace (world_of y)) = Suc (releases (trace w)))
       \<and> (VideoCapture E (files w) (vid_file_name self) = None \<or> ui_stop U
            \<or> (\<exists>s n. VideoCapture E (files w) (vid_file_name self) = Some s \<and> cap_read (s n) = None)
          \<longrightarrow> stream_run E U self w \<noteq> None)"
proof (rule conjI)
  have "opens (trace (world_of y)) = Suc (opens (trace w))
      \<and> releases (trace (world_of y)) = Suc (releases (trace w))"
    if run: "stream_run E U self w = Some y" for y
  proof (cases "VideoCapture E (files w) (vid_file_name self)")
    case None
    with run show ?thesis
      by (auto simp: stream_run_def log_alt world_of_def opens_append releases_append)
  next
    case (Some s)
    let ?w2 = "w\<lparr>trace := trace w @ [Button ''Stop'', Cap_open (vid_file_name self)]\<rparr>"
    from run obtain z where z: "stream_loop E s (ui_stop U) self 0 ?w2 = Some z"
      by (auto simp: stream_run_opened [OF Some] split: option.splits)
    from loop_exit [OF z] assms have ex:
      "case z of
         Inl (e, w') \<Rightarrow> e = StopException \<and> ui_stop U
           \<and> releases (trace w') = Suc (releases (trace ?w2)) \<and> opens (trace w') = opens (trace ?w2)
       | Inr (self', w') \<Rightarrow>
           releases (trace w') = releases (trace ?w2) \<and> opens (trace w') = opens (trace ?w2)"
      by simp
    show ?thesis
    proof (cases z)
      case (Inl x)
      with run z have "y = Inl x"
        by (simp add: stream_run_opened [OF Some])
      with ex Inl show ?thesis
        by (auto simp: world_of_def opens_append releases_append)
    next
      case (Inr x)
      obtain self' w3 where x: "x = (self', w3)" by (cases x)
      with run z Inr have "y = Inr (self', log Cap_release w3)"
        by (simp add: stream_run_opened [OF Some])
      with ex Inr x show ?thesis
        by (auto simp: world_of_def opens_append releases_append log_alt)
    qed
  qed
  then show "\<forall>y. stream_run E U self w = Some y \<longrightarrow>
            opens (trace (world_of y)) = Suc (opens (trace w))
          \<and> releases (trace (world_of y)) = Suc (releases (trace w))"
    by blast
next
  have "stream_run E U self w \<noteq> None"
    if a: "VideoCapture E (files w) (vid_file_name self) = None \<or> ui_stop U
            \<or> (\<exists>s n. VideoCapture E (files w) (vid_file_name self) = Some s \<and> cap_read (s n) = None)"
  proof (cases "VideoCapture E (files w) (vid_file_name self)")
    case None
    then show ?thesis by (simp add: stream_run_def files_log)
  next
    case (Some s)
    let ?w2 = "w\<lparr>trace := trace w @ [Button ''Stop'', Cap_open (vid_file_name self)]\<rparr>"
    have "stream_loop E s (ui_stop U) self 0 ?w2 \<noteq> None"
    proof (cases "ui_stop U")
      case True
      then show ?thesis using loop_leaves_on_stop [OF assms] by simp
    next
      case False
      with a Some obtain n where "cap_read (s n) = None" by auto
      then show ?thesis
        using loop_leaves_on_failed_read [of s n 0 self m E] assms by simp
    qed
    then show ?thesis
      by (auto simp: stream_run_opened [OF Some] split: sum.splits)
  qed
  then show "VideoCapture E (files w) (vid_file_name self) = None \<or> ui_stop U
            \<or> (\<exists>s n. VideoCapture E (files w) (vid_file_name self) = Some s \<and> cap_read (s n) = None)
          \<longrightarrow> stream_run E U self w \<noteq> None"
    by blast
qed

theorem capture_released_exactly_once_witness:
  "(\<exists>y. stream_run (demo_env None) demo_ui demo_self (video_world ''ab'') = Some y
        \<and> opens (trace (world_of y)) = 1 \<and> releases (trace (world_of y)) = 1)
   \<and> (\<exists>y. stream_run (demo_env None) demo_ui demo_self (video_world ''a!b'') = Some y
        \<and> opens (trace (world_of y)) = 1 \<and> releases (trace (world_of y)) = 1)
   \<and> (\<exists>y. stream_run (demo_env None) (demo_ui\<lparr>ui_stop := True\<rparr>) demo_self (video_world ''ab'') = Some y
        \<and> opens (trace (world_of y)) = 1 \<and> releases (trace (world_of y)) = 1)"
proof -
  have m: "model demo_self = Some 0"
    by (simp add: demo_self_def)
  have t: "opens (trace (video_world b)) = 0" "releases (trace (video_world b)) = 0" for b
    by (simp_all add: video_world_def)
  have o1: "VideoCapture (demo_env None) (files (video_world ''ab'')) (vid_file_name demo_self)
              = Some (stream_of [Frame ''a'', Frame ''b''])
            \<and> cap_read (stream_of [Frame ''a'', Frame ''b''] 2) = None"
    by (simp add: demo_env_def video_world_def demo_self_def stream_of_def cap_read_def)
  have o2: "VideoCapture (demo_env None) (files (video_world ''a!b'')) (vid_file_name demo_self)
              = Some (stream_of [Frame ''a'', ReadError, Frame ''b''])
            \<and> cap_read (stream_of [Frame ''a'', ReadError, Frame ''b''] 1) = None"
    by (simp add: demo_env_def video_world_def demo_self_def stream_of_def cap_read_def)
  have o3: "ui_stop (demo_ui\<lparr>ui_stop := True\<rparr>)"
    by simp
  note c1 = capture_released_exactly_once [OF m, of "demo_env None" demo_ui "video_world ''ab''"]
  note c2 = capture_released_exactly_once [OF m, of "demo_env None" demo_ui "video_world ''a!b''"]
  note c3 = capture_released_exactly_once [OF m, of "demo_env None" "demo_ui\<lparr>ui_stop := True\<rparr>"
      "video_world ''ab''"]
  from c1 o1 obtain y1 where
    y1: "stream_run (demo_env None) demo_ui demo_self (video_world ''ab'') = Some y1"
    by blast
  from c2 o2 obtain y2 where
    y2: "stream_run (demo_env None) demo_ui demo_self (video_world ''a!b'') = Some y2"
    by blast
  from c3 o3 obtain y3 where
    y3: "stream_run (demo_env None) (demo_ui\<lparr>ui_stop := True\<rparr>) demo_self (video_world ''ab'') = Some y3"
    by blast
  show ?thesis
    using c1 c2 c3 y1 y2 y3 by (simp add: t)
qed

subsection \<open>The iterations of a run that is not stopped\<close>

lemma errors_append: "errors (xs @ ys) = errors xs @ errors ys"
  by (induction xs rule: errors.induct) simp_all

lemma loop_result_model [simp]: "loop_result E (self\<lparr>model := x\<rparr>) = loop_result E self"
  by (simp add: loop_result_def fun_eq_iff)

lemma iterations_model [simp]:
  "iterations E (self\<lparr>model := x\<rparr>) m fs = iterations E self m fs"
  by (induction fs arbitrary: m) simp_all

lemma model_after_model [simp]:
  "model_after E (self\<lparr>model := x\<rparr>) m fs = model_after E self m fs"
  by (induction fs arbitrary: m) simp_all

lemma iterations_observed:
  "org_frames (iterations E self m fs) = fs"
  "ann_frames (iterations E self m fs) = annotations E self m fs"
  "length (annotations E self m fs) = length fs"
  "warnings (iterations E self m fs) = []"
  "errors (iterations E self m fs) = []"
  "opens (iterations E self m fs) = 0"
  "releases (iterations E self m fs) = 0"
  by (induction fs arbitrary: m) (simp_all add: loop_call_def)

lemma loop_frames:
  assumes "\<forall>j<length fs. s (i + j) = Frame (fs ! j)"
    and "cap_read (s (i + length fs)) = None"
    and "model self = Some m"
  shows "stream_loop E s False self i w =
           Some (Inr (self\<lparr>model := Some (model_after E self m fs)\<rparr>,
                      w\<lparr>trace := trace w @ iterations E self m fs
                                    @ [Cap_read, St_warning ''Failed to read frame.'']\<rparr>))"
  using assms
proof (induction fs arbitrary: i self w m)
  case Nil
  then show ?case
    by (simp add: loop_fail log_alt)
next
  case (Cons f fs)
  let ?m2 = "snd (loop_result E self m f)"
  let ?self2 = "self\<lparr>model := Some ?m2\<rparr>"
  let ?it = "[Cap_read, loop_call self f, Org_image f, Ann_image (plot E (fst (loop_result E self m f)))]"
  let ?w2 = "w\<lparr>trace := trace w @ ?it\<rparr>"
  from Cons.prems(1) have rd: "cap_read (s i) = Some f"
    by (auto simp: cap_read_def dest: spec [of _ 0])
  have step: "stream_loop E s False self i w = stream_loop E s False ?self2 (Suc i) ?w2"
    using rd Cons.prems(3) loop_step [of s i f self m E w] by (simp add: log_alt)
  have p1: "\<forall>j<length fs. s (Suc i + j) = Frame (fs ! j)"
  proof (intro allI impI)
    fix j assume "j < length fs"
    then have "s (i + Suc j) = Frame ((f # fs) ! Suc j)"
      using Cons.prems(1) by (auto dest: spec [of _ "Suc j"])
    then show "s (Suc i + j) = Frame (fs ! j)" by simp
  qed
  have p2: "cap_read (s (Suc i + length fs)) = None"
    using Cons.prems(2) by simp
  have p3: "model ?self2 = Some ?m2" by simp
  show ?case
    using step Cons.IH [OF p1 p2 p3, of ?w2] by simp
qed

text \<open>
  C1, as the code has it. On an opened capture that yields \<open>N\<close> frames and then an
  unsuccessful read, with the Stop button not pressed and the model loaded, the run is
  exactly this: the Stop button is made and the capture opened; for each of the \<open>N\<close>
  frames in turn the frame is read, given to the model, and shown with the plot of the
  model's result; then comes the read that fails, the warning
  \<^verbatim>\<open>Failed to read frame.\<close>, and the one release of the capture, and the run returns
  normally with the files as they were. So the pairs shown are the \<open>N\<close> frames, in
  order, each with its annotated frame; the one warning and the one release come after
  them; no error is shown and nothing is raised. The unsuccessful read may be the end of
  the stream or a read error: \<^verbatim>\<open>cap.read()\<close> reports both as a false flag and the code
  treats them alike.
\<close>

theorem video_run_emits_every_frame:
  assumes opened: "VideoCapture E (files w) (vid_file_name self) = Some s"
    and frames: "\<forall>j<length fs. s j = Frame (fs ! j)"
    and last: "s (length fs) = EndOfStream \<or> s (length fs) = ReadError"
    and loaded: "model self = Some m"
    and nostop: "\<not> ui_stop U"
  shows "\<exists>w'. stream_run E U self w =
                Some (Inr (self\<lparr>model := Some (model_after E self m fs)\<rparr>, w'))
          \<and> w' = w\<lparr>trace := trace w @ [Button ''Stop'', Cap_open (vid_file_name self)]
                          @ iterations E self m fs
                          @ [Cap_read, St_warning ''Failed to read frame.'', Cap_release]\<rparr>
          \<and> emissions (since w w') = zip fs (annotations E self m fs)
          \<and> length (emissions (since w w')) = length fs
          \<and> warnings (since w w') = [''Failed to read frame.'']
          \<and> errors (since w w') = []
          \<and> opens (since w w') = 1
          \<and> releases (since w w') = 1"
proof -
  let ?w2 = "w\<lparr>trace := trace w @ [Button ''Stop'', Cap_open (vid_file_name self)]\<rparr>"
  let ?tr = "[Button ''Stop'', Cap_open (vid_file_name self)] @ iterations E self m fs
              @ [Cap_read, St_warning ''Failed to read frame.'', Cap_release]"
  let ?w' = "w\<lparr>trace := trace w @ ?tr\<rparr>"
  have f0: "\<forall>j<length fs. s (0 + j) = Frame (fs ! j)"
    using frames by simp
  have l0: "cap_read (s (0 + length fs)) = None"
    using last by (auto simp: cap_read_def)
  have run: "stream_run E U self w =
      Some (Inr (self\<lparr>model := Some (model_after E self m fs)\<rparr>, ?w'))"
    using loop_frames [OF f0 l0 loaded, of E ?w2] nostop
    by (simp add: stream_run_opened [OF opened] log_alt)
  have s: "since w ?w' = ?tr"
    by (rule since_append) simp
  have "emissions ?tr = zip fs (annotations E self m fs)"
    "length (emissions ?tr) = length fs"
    "warnings ?tr = [''Failed to read frame.'']" "errors ?tr = []"
    "opens ?tr = 1" "releases ?tr = 1"
    by (simp_all add: emissions_def org_frames_append ann_frames_append warnings_append
        errors_append opens_append releases_append iterations_observed)
  with run s show ?thesis by simp
qed

theorem video_run_emits_every_frame_witness:
  "\<exists>w'. stream_run (demo_env None) demo_ui demo_self (video_world ''ab'') =
           Some (Inr (demo_self\<lparr>model := Some 2\<rparr>, w'))
     \<and> w' = (video_world ''ab'')\<lparr>trace :=
          [Button ''Stop'', Cap_open (Name ''uploaded_video.mp4''),
           Cap_read, Track ''a'' 0.25 0.45 [] True, Org_image ''a'', Ann_image ''plot trk a'',
           Cap_read, Track ''b'' 0.25 0.45 [] True, Org_image ''b'', Ann_image ''plot trk b'',
           Cap_read, St_warning ''Failed to read frame.'', Cap_release]\<rparr>
     \<and> emissions (since (video_world ''ab'') w') = [(''a'', ''plot trk a''), (''b'', ''plot trk b'')]
     \<and> warnings (since (video_world ''ab'') w') = [''Failed to read frame.'']
     \<and> errors (since (video_world ''ab'') w') = []
     \<and> opens (since (video_world ''ab'') w') = 1
     \<and> releases (since (video_world ''ab'') w') = 1"
proof -
  let ?s = "stream_of [Frame ''a'', Frame ''b'']"
  have h1: "VideoCapture (demo_env None) (files (video_world ''ab'')) (vid_file_name demo_self) = Some ?s"
    by (simp add: demo_env_def video_world_def demo_self_def)
  have h2: "\<forall>j<length [''a'', ''b'']. ?s j = Frame ([''a'', ''b''] ! j)"
    by (auto simp: stream_of_def less_Suc_eq nth_Cons')
  have h3: "?s (length [''a'', ''b'']) = EndOfStream \<or> ?s (length [''a'', ''b'']) = ReadError"
    by (simp add: stream_of_def)
  have h4: "model demo_self = Some 0"
    by (simp add: demo_self_def)
  have h5: "\<not> ui_stop demo_ui"
    by (simp add: demo_ui_def)
  have e: "iterations (demo_env None) demo_self 0 [''a'', ''b''] =
      [Cap_read, Track ''a'' 0.25 0.45 [] True, Org_image ''a'', Ann_image ''plot trk a'',
       Cap_read, Track ''b'' 0.25 0.45 [] True, Org_image ''b'', Ann_image ''plot trk b'']"
    "annotations (demo_env None) demo_self 0 [''a'', ''b''] = [''plot trk a'', ''plot trk b'']"
    "model_after (demo_env None) demo_self 0 [''a'', ''b''] = 2"
    "vid_file_name demo_self = Name ''uploaded_video.mp4''"
    "trace (video_world ''ab'') = []"
    by (simp_all add: loop_call_def loop_result_def demo_env_def demo_self_def video_world_def)
  show ?thesis
    using video_run_emits_every_frame [OF h1 h2 h3 h4 h5] unfolding e by simp
qed

subsection \<open>The Stop button\<close>

text \<open>
  C3, as the code has it. The Stop button is read once, before the loop. Each iteration
  reads a frame and calls the model on it, then tests the flag, and only then shows the
  pair. With the flag not set, every iteration shows the original and the plot of its
  call's result after the call and before the next read, until a read fails. With the flag
  set, an iteration whose read succeeds releases the capture and ends the script with
  \<^verbatim>\<open>st.stop()\<close> right after the call, so the pair of that iteration is never shown.
  A run started with the flag set therefore ends in its first iteration with no emission
  at all and one release.
\<close>

theorem stop_is_tested_before_display:
  assumes loaded: "model self = Some m"
  shows "(\<not> b \<and> (\<forall>j<length fs. s (i + j) = Frame (fs ! j)) \<and> cap_read (s (i + length fs)) = None \<longrightarrow>
            stream_loop E s b self i w =
              Some (Inr (self\<lparr>model := Some (model_after E self m fs)\<rparr>,
                         w\<lparr>trace := trace w @ iterations E self m fs
                                       @ [Cap_read, St_warning ''Failed to read frame.'']\<rparr>)))
       \<and> (b \<and> s i = Frame f \<longrightarrow>
            stream_loop E s b self i w =
              Some (Inl (StopException,
                         w\<lparr>trace := trace w @ [Cap_read, loop_call self f, Cap_release, St_stop]\<rparr>)))
       \<and> (ui_stop U \<and> VideoCapture E (files w) (vid_file_name self) = Some s \<longrightarrow>
            (\<exists>y. stream_run E U self w = Some y
               \<and> emissions (since w (world_of y)) = []
               \<and> releases (since w (world_of y)) = 1
               \<and> (\<forall>f. s 0 = Frame f \<longrightarrow>
                    y = Inl (StopException,
                          w\<lparr>trace := trace w @
                              [Button ''Stop'', Cap_open (vid_file_name self), Cap_read,
                               loop_call self f, Cap_release, St_stop]\<rparr>))))"
proof (intro conjI)
  show "\<not> b \<and> (\<forall>j<length fs. s (i + j) = Frame (fs ! j)) \<and> cap_read (s (i + length fs)) = None \<longrightarrow>
            stream_loop E s b self i w =
              Some (Inr (self\<lparr>model := Some (model_after E self m fs)\<rparr>,
                         w\<lparr>trace := trace w @ iterations E self m fs
                                       @ [Cap_read, St_warning ''Failed to read frame.'']\<rparr>))"
    using loop_frames [of fs s i self m E w] loaded by auto
next
  show "b \<and> s i = Frame f \<longrightarrow>
            stream_loop E s b self i w =
              Some (Inl (StopException,
                         w\<lparr>trace := trace w @ [Cap_read, loop_call self f, Cap_release, St_stop]\<rparr>))"
    using loop_stop [of s i f self m E w] loaded by (auto simp: cap_read_def log_alt)
next
  have "\<exists>y. stream_run E U self w = Some y
               \<and> emissions (since w (world_of y)) = []
               \<and> releases (since w (world_of y)) = 1
               \<and> (\<forall>f. s 0 = Frame f \<longrightarrow>
                    y = Inl (StopException,
                          w\<lparr>trace := trace w @
                              [Button ''Stop'', Cap_open (vid_file_name self), Cap_read,
                               loop_call self f, Cap_release, St_stop]\<rparr>))"
    if stop: "ui_stop U" and opened: "VideoCapture E (files w) (vid_file_name self) = Some s"
  proof (cases "cap_read (s 0)")
    case (Some f)
    let ?tr = "[Button ''Stop'', Cap_open (vid_file_name self), Cap_read,
                loop_call self f, Cap_release, St_stop]"
    let ?w' = "w\<lparr>trace := trace w @ ?tr\<rparr>"
    have fr: "s 0 = Frame f"
      using Some by (cases "s 0") (simp_all add: cap_read_def)
    have run: "stream_run E U self w = Some (Inl (StopException, ?w'))"
      using stop loop_stop [of s 0 f self m E] Some loaded
      by (simp add: stream_run_opened [OF opened] log_alt)
    have "since w ?w' = ?tr"
      by (rule since_append) simp
    moreover have "emissions ?tr = []" "releases ?tr = 1"
      by (simp_all add: emissions_def loop_call_def)
    ultimately show ?thesis
      using run fr by (simp add: world_of_def)
  next
    case None
    let ?tr = "[Button ''Stop'', Cap_open (vid_file_name self), Cap_read,
                St_warning ''Failed to read frame.'', Cap_release]"
    let ?w' = "w\<lparr>trace := trace w @ ?tr\<rparr>"
    have nf: "s 0 \<noteq> Frame f" for f
      using None by (auto simp: cap_read_def)
    have run: "stream_run E U self w = Some (Inr (self, ?w'))"
      using None by (simp add: stream_run_opened [OF opened] loop_fail log_alt)
    have "since w ?w' = ?tr"
      by (rule since_append) simp
    moreover have "emissions ?tr = []" "releases ?tr = 1"
      by (simp_all add: emissions_def)
    ultimately show ?thesis
      using run nf by (simp add: world_of_def)
  qed
  then show "ui_stop U \<and> VideoCapture E (files w) (vid_file_name self) = Some s \<longrightarrow>
            (\<exists>y. stream_run E U self w = Some y
               \<and> emissions (since w (world_of y)) = []
               \<and> releases (since w (world_of y)) = 1
               \<and> (\<forall>f. s 0 = Frame f \<longrightarrow>
                    y = Inl (StopException,
                          w\<lparr>trace := trace w @
                              [Button ''Stop'', Cap_open (vid_file_name self), Cap_read,
                               loop_call self f, Cap_release, St_stop]\<rparr>)))"
    by blast
qed

theorem stop_is_tested_before_display_witness:
  "stream_loop (demo_env None) (stream_of [Frame ''a'', Frame ''b'']) False demo_self 0 empty_world =
     Some (Inr (demo_self\<lparr>model := Some 2\<rparr>,
       empty_world\<lparr>trace :=
         [Cap_read, Track ''a'' 0.25 0.45 [] True, Org_image ''a'', Ann_image ''plot trk a'',
          Cap_read, Track ''b'' 0.25 0.45 [] True, Org_image ''b'', Ann_image ''plot trk b'',
          Cap_read, St_warning ''Failed to read frame.'']\<rparr>))
   \<and> stream_loop (demo_env None) (stream_of [Frame ''a'', Frame ''b'']) True demo_self 0 empty_world =
     Some (Inl (StopException,
       empty_world\<lparr>trace := [Cap_read, Track ''a'' 0.25 0.45 [] True, Cap_release, St_stop]\<rparr>))
   \<and> (\<exists>y. stream_run (demo_env None) (demo_ui\<lparr>ui_stop := True\<rparr>) demo_self (video_world ''ab'') = Some y
        \<and> emissions (since (video_world ''ab'') (world_of y)) = []
        \<and> releases (since (video_world ''ab'') (world_of y)) = 1
        \<and> y = Inl (StopException,
              (video_world ''ab'')\<lparr>trace :=
                 [Button ''Stop'', Cap_open (Name ''uploaded_video.mp4''), Cap_read,
                  Track ''a'' 0.25 0.45 [] True, Cap_release, St_stop]\<rparr>))"
proof -
  let ?s = "stream_of [Frame ''a'', Frame ''b'']"
  have m: "model demo_self = Some 0"
    by (simp add: demo_self_def)
  have e: "iterations (demo_env None) demo_self 0 [''a'', ''b''] =
      [Cap_read, Track ''a'' 0.25 0.45 [] True, Org_image ''a'', Ann_image ''plot trk a'',
       Cap_read, Track ''b'' 0.25 0.45 [] True, Org_image ''b'', Ann_image ''plot trk b'']"
    "model_after (demo_env None) demo_self 0 [''a'', ''b''] = 2"
    "loop_call demo_self ''a'' = Track ''a'' 0.25 0.45 [] True"
    "vid_file_name demo_self = Name ''uploaded_video.mp4''"
    "trace (video_world ''ab'') = []" "trace (empty_world :: string world) = []"
    by (simp_all add: loop_call_def loop_result_def demo_env_def demo_self_def video_world_def
        empty_world_def)
  have a: "\<not> False \<and> (\<forall>j<length [''a'', ''b'']. ?s (0 + j) = Frame ([''a'', ''b''] ! j))
      \<and> cap_read (?s (0 + length [''a'', ''b''])) = None"
    by (auto simp: stream_of_def cap_read_def less_Suc_eq nth_Cons')
  have b: "True \<and> ?s 0 = Frame ''a''"
    by (simp add: stream_of_def)
  have c: "ui_stop (demo_ui\<lparr>ui_stop := True\<rparr>)
      \<and> VideoCapture (demo_env None) (files (video_world ''ab'')) (vid_file_name demo_self) = Some ?s"
    by (simp add: demo_env_def video_world_def demo_self_def)
  have p1: "stream_loop (demo_env None) ?s False demo_self 0 empty_world =
     Some (Inr (demo_self\<lparr>model := Some 2\<rparr>,
       empty_world\<lparr>trace :=
         [Cap_read, Track ''a'' 0.25 0.45 [] True, Org_image ''a'', Ann_image ''plot trk a'',
          Cap_read, Track ''b'' 0.25 0.45 [] True, Org_image ''b'', Ann_image ''plot trk b'',
          Cap_read, St_warning ''Failed to read frame.'']\<rparr>))"
    using stop_is_tested_before_display [OF m, where b = False and fs = "[''a'', ''b'']"
        and s = ?s and i = 0 and E = "demo_env None" and w = empty_world,
        THEN conjunct1, THEN mp, OF a]
    unfolding e by simp
  have p2: "stream_loop (demo_env None) ?s True demo_self 0 empty_world =
     Some (Inl (StopException,
       empty_world\<lparr>trace := [Cap_read, Track ''a'' 0.25 0.45 [] True, Cap_release, St_stop]\<rparr>))"
    using stop_is_tested_before_display [OF m, where b = True and f = "''a''"
        and s = ?s and i = 0 and E = "demo_env None" and w = empty_world,
        THEN conjunct2, THEN conjunct1, THEN mp, OF b]
    unfolding e by simp
  have p3: "\<exists>y. stream_run (demo_env None) (demo_ui\<lparr>ui_stop := True\<rparr>) demo_self (video_world ''ab'') = Some y
        \<and> emissions (since (video_world ''ab'') (world_of y)) = []
        \<and> releases (since (video_world ''ab'') (world_of y)) = 1
        \<and> y = Inl (StopException,
              (video_world ''ab'')\<lparr>trace :=
                 [Button ''Stop'', Cap_open (Name ''uploaded_video.mp4''), Cap_read,
                  Track ''a'' 0.25 0.45 [] True, Cap_release, St_stop]\<rparr>)"
    using stop_is_tested_before_display [OF m, where s = ?s and E = "demo_env None"
        and U = "demo_ui\<lparr>ui_stop := True\<rparr>" and w = "video_world ''ab''",
        THEN conjunct2, THEN conjunct2, THEN mp, OF c] b
    unfolding e by (auto simp: e(3))
  show ?thesis
    using p1 p2 p3 by blast
qed

end
